theory Spec2Isabelle
  imports Main
begin

section \<open>The supervisor watchdog (supervisor-watcher.py)\<close>

text \<open>
  The program is one function, \<open>main(args)\<close>: it samples the environment once, then loops
  forever over \<open>listener.wait\<close>, parses the body of each frame, and, outside debug mode,
  decides inside a \<open>try\<close> block whether to shut the supervisor down, answering the frame
  with \<open>listener.ok\<close> or, after any exception of the \<open>try\<close> block, with \<open>listener.fail\<close>
  and \<open>exit(1)\<close>.

  The model is a shallow embedding with explicit effects: what the process does is a list
  of events (its trace) and the way it ends is an outcome. Exceptions are values. The
  calls of the logger, of \<open>time.sleep\<close> and of \<open>listener.ok\<close> and \<open>listener.fail\<close>
  are taken to return; \<open>listener.wait\<close> and \<open>subprocess.call\<close> may raise.
\<close>

subsection \<open>Python values\<close>

datatype exn = KeyError string | ValueError | OSError

text \<open>A \<open>dict\<close> from \<open>str\<close> to \<open>str\<close>.\<close>

type_synonym dict = "string \<rightharpoonup> string"

text \<open>\<open>d[k]\<close>: raises \<open>KeyError\<close> when the key is absent.\<close>

definition getitem :: "dict \<Rightarrow> string \<Rightarrow> exn + string" where
  "getitem d k = (case d k of None \<Rightarrow> Inl (KeyError k) | Some v \<Rightarrow> Inr v)"

text \<open>
  \<open>s.split(sep)\<close> for a separator of one character: every occurrence of the separator
  cuts, so the result is never empty and may hold empty strings. A character other than
  the separator joins the first piece of the rest.
\<close>

fun cons_first :: "char \<Rightarrow> string list \<Rightarrow> string list" where
  "cons_first x [] = [[x]]"
| "cons_first x (w # ws) = (x # w) # ws"

fun split_on :: "char \<Rightarrow> string \<Rightarrow> string list" where
  "split_on c [] = [[]]"
| "split_on c (x # xs) =
     (if x = c then [] # split_on c xs else cons_first x (split_on c xs))"

text \<open>
  \<open>dict(seq)\<close> for a list of lists of strings: the elements are taken in order, each must
  have exactly two items (else \<open>ValueError\<close>), and a later key replaces an earlier one.
\<close>

fun dict_update :: "dict \<Rightarrow> string list list \<Rightarrow> exn + dict" where
  "dict_update d [] = Inr d"
| "dict_update d ([k, v] # ps) = dict_update (d(k \<mapsto> v)) ps"
| "dict_update d (p # ps) = Inl ValueError"

definition py_dict :: "string list list \<Rightarrow> exn + dict" where
  "py_dict ps = dict_update Map.empty ps"

subsection \<open>The collaborators\<close>

text \<open>
  \<open>listener.wait(sys.stdin, sys.stdout)\<close> belongs to the supervisor library. A call either
  returns a frame, the dict of the header line and the body string, or raises. The input
  of a run is the list of what the successive calls do; once the list is used up the
  stream is closed, and there the library's \<open>wait\<close> reads an empty header line, gets the
  empty dict from it and raises \<open>KeyError\<close> on \<open>headers['len']\<close>.
\<close>

datatype wait_result = Frame dict string | Wait_raises exn

text \<open>
  \<open>subprocess.call(cmd)\<close> either returns the exit status of the command or raises (the
  command could not be spawned). The environment is a function from the number of
  earlier invocations to what this invocation does.
\<close>

datatype call_result = Call_returns int | Call_raises exn

datatype event =
    Log_info string
  | Log_critical exn
  | Recv dict string
  | Sleep nat
  | Subprocess_call "string list"
  | Send_ok
  | Send_fail

text \<open>
  A run of the process ends by an exception that nothing catches, or by \<open>exit(code)\<close>.
  The interpreter's exit status after an uncaught exception is 1.
\<close>

datatype outcome = Uncaught exn | Sys_exit int

fun exit_status :: "outcome \<Rightarrow> int" where
  "exit_status (Uncaught e) = 1"
| "exit_status (Sys_exit code) = code"

subsection \<open>The body of the \<open>try\<close> block\<close>

text \<open>
  The two nested conditions of lines 26 and 27:
  \<^verbatim>\<open>headers["eventname"] == "PROCESS_STATE_FATAL" or headers["eventname"] == "PROCESS_STATE_EXITED"\<close>
  and then \<^verbatim>\<open>not args or body["processname"] in args\<close>, with Python's short-circuit
  evaluation: \<open>body["processname"]\<close> is looked up only for the two event names and a
  non-empty \<open>args\<close>.
\<close>

definition qualifying :: "string list \<Rightarrow> dict \<Rightarrow> dict \<Rightarrow> exn + bool" where
  "qualifying args headers body =
     (case getitem headers ''eventname'' of
        Inl e \<Rightarrow> Inl e
      | Inr ev \<Rightarrow>
          if ev = ''PROCESS_STATE_FATAL'' \<or> ev = ''PROCESS_STATE_EXITED'' then
            (if args = [] then Inr True
             else (case getitem body ''processname'' of
                     Inl e \<Rightarrow> Inl e
                   | Inr pn \<Rightarrow> Inr (pn \<in> set args)))
          else Inr False)"

definition shutdown_cmd :: "string list" where
  "shutdown_cmd = [''/usr/local/bin/supervisorctl'', ''shutdown'']"

text \<open>
  Lines 28 to 31: log, \<open>time.sleep(10)\<close>, log, \<open>subprocess.call\<close>. The result is the events,
  the exception raised if any, and the number of invocations of the command so far.
\<close>

definition shutdown_events :: "event list" where
  "shutdown_events =
     [Log_info ''[WATCHER] Game not running or has exited. Waiting 10 seconds before shutting down supervisord...'',
      Sleep 10,
      Log_info ''[WATCHER] Shutting down supervisord...'',
      Subprocess_call shutdown_cmd]"

definition shutdown_supervisord ::
  "(nat \<Rightarrow> call_result) \<Rightarrow> nat \<Rightarrow> event list \<times> exn option \<times> nat" where
  "shutdown_supervisord spawn n =
     (shutdown_events,
      (case spawn n of Call_returns rc \<Rightarrow> None | Call_raises e \<Rightarrow> Some e),
      Suc n)"

definition try_block ::
  "string list \<Rightarrow> (nat \<Rightarrow> call_result) \<Rightarrow> nat \<Rightarrow> dict \<Rightarrow> dict \<Rightarrow> event list \<times> exn option \<times> nat" where
  "try_block args spawn n headers body =
     (case qualifying args headers body of
        Inl e \<Rightarrow> ([], Some e, n)
      | Inr q \<Rightarrow> if q then shutdown_supervisord spawn n else ([], None, n))"

subsection \<open>The event loop and \<open>main\<close>\<close>

text \<open>Line 21: \<^verbatim>\<open>dict([pair.split(":") for pair in body.split(" ")])\<close>.\<close>

definition parse_body :: "string \<Rightarrow> exn + dict" where
  "parse_body body = py_dict (map (split_on CHR '':'') (split_on CHR '' '' body))"

text \<open>Prefixing the events of one iteration to the rest of the run.\<close>

fun emit :: "event list \<Rightarrow> event list \<times> outcome \<Rightarrow> event list \<times> outcome" where
  "emit evs (tr, out) = (evs @ tr, out)"

text \<open>
  \<open>while True\<close>, lines 19 to 38. The body is parsed on line 21, before the test of
  \<open>debug_mode\<close> and outside the \<open>try\<close>: an exception there, like one of \<open>listener.wait\<close>,
  is caught by nothing. \<open>except Exception\<close> catches every exception of the \<open>try\<close> block.
\<close>

fun main_loop ::
  "bool \<Rightarrow> string list \<Rightarrow> (nat \<Rightarrow> call_result) \<Rightarrow> nat \<Rightarrow> wait_result list
     \<Rightarrow> event list \<times> outcome" where
  "main_loop debug_mode args spawn n [] = ([], Uncaught (KeyError ''len''))"
| "main_loop debug_mode args spawn n (Wait_raises e # rest) = ([], Uncaught e)"
| "main_loop debug_mode args spawn n (Frame headers body # rest) =
     (case parse_body body of
        Inl e \<Rightarrow> ([Recv headers body], Uncaught e)
      | Inr fields \<Rightarrow>
          if debug_mode then
            emit [Recv headers body] (main_loop debug_mode args spawn n rest)
          else
            (case try_block args spawn n headers fields of
               (evs, Some e, n') \<Rightarrow>
                 (Recv headers body # evs @ [Log_critical e, Send_fail], Sys_exit 1)
             | (evs, None, n') \<Rightarrow>
                 emit (Recv headers body # evs @ [Send_ok])
                   (main_loop debug_mode args spawn n' rest)))"

text \<open>Line 16: \<^verbatim>\<open>debug_mode = True if 'DEBUG' in os.environ else False\<close>.\<close>

definition debug_mode_of :: "dict \<Rightarrow> bool" where
  "debug_mode_of environ = (if environ ''DEBUG'' \<noteq> None then True else False)"

definition main ::
  "string list \<Rightarrow> dict \<Rightarrow> (nat \<Rightarrow> call_result) \<Rightarrow> wait_result list \<Rightarrow> event list \<times> outcome" where
  "main args environ spawn stdin =
     (let debug_mode = debug_mode_of environ
      in emit [Log_info ''Listening for events...'']
           (main_loop debug_mode args spawn 0 stdin))"

subsection \<open>Reading inputs and traces\<close>

text \<open>An input stream that delivers the given frames, and the events of reading them.\<close>

definition frames :: "(dict \<times> string) list \<Rightarrow> wait_result list" where
  "frames fs = map (\<lambda>(headers, body). Frame headers body) fs"

definition recvs :: "(dict \<times> string) list \<Rightarrow> event list" where
  "recvs fs = map (\<lambda>(headers, body). Recv headers body) fs"

text \<open>The acknowledgements written by \<open>listener.ok\<close> and \<open>listener.fail\<close>.\<close>

fun is_reply :: "event \<Rightarrow> bool" where
  "is_reply Send_ok = True"
| "is_reply Send_fail = True"
| "is_reply e = False"

fun is_call :: "event \<Rightarrow> bool" where
  "is_call (Subprocess_call cmd) = True"
| "is_call e = False"

text \<open>The events of the request and reply protocol: a frame read, a reply written.\<close>

fun is_protocol :: "event \<Rightarrow> bool" where
  "is_protocol (Recv headers body) = True"
| "is_protocol Send_ok = True"
| "is_protocol Send_fail = True"
| "is_protocol e = False"

text \<open>
  A trace in which every call of a subprocess is the shutdown command and comes right after
  the sleep of 10 seconds and the log line that follows it.
\<close>

definition graced :: "event list \<Rightarrow> bool" where
  "graced tr = (\<forall>pre cmd post. tr = pre @ Subprocess_call cmd # post \<longrightarrow>
      cmd = shutdown_cmd
      \<and> (\<exists>pre'. pre = pre' @ [Sleep 10, Log_info ''[WATCHER] Shutting down supervisord...'']))"

text \<open>
  Two readings of a frame, for statements about whole streams: its body parses and the
  conditions of lines 26 and 27 raise nothing on it; the conditions hold on it.
\<close>

definition frame_clean :: "string list \<Rightarrow> dict \<times> string \<Rightarrow> bool" where
  "frame_clean args f =
     (case parse_body (snd f) of
        Inl e \<Rightarrow> False
      | Inr fields \<Rightarrow>
          (case qualifying args (fst f) fields of Inl e \<Rightarrow> False | Inr q \<Rightarrow> True))"

definition frame_qualifies :: "string list \<Rightarrow> dict \<times> string \<Rightarrow> bool" where
  "frame_qualifies args f =
     (case parse_body (snd f) of
        Inl e \<Rightarrow> False
      | Inr fields \<Rightarrow>
          (case qualifying args (fst f) fields of Inl e \<Rightarrow> False | Inr q \<Rightarrow> q))"

text \<open>
  \<open>os.environ\<close> is a mutable mapping, which what runs during the loop could change.
  \<open>main_env\<close> is \<open>main\<close> with the environment as it is over time: \<open>os_environ i\<close> is
  the content of \<open>os.environ\<close> after \<open>i\<close> calls of \<open>listener.wait\<close> have returned.
  Line 16 reads it before the loop; nothing in the loop reads it.
\<close>

definition main_env ::
  "string list \<Rightarrow> (nat \<Rightarrow> dict) \<Rightarrow> (nat \<Rightarrow> call_result) \<Rightarrow> wait_result list
     \<Rightarrow> event list \<times> outcome" where
  "main_env args os_environ spawn stdin =
     (let debug_mode = debug_mode_of (os_environ 0)
      in emit [Log_info ''Listening for events...'']
           (main_loop debug_mode args spawn 0 stdin))"

section \<open>The watch decision\<close>

text \<open>
  C2: the decision of lines 26 and 27 is true exactly when the event name is
  PROCESS_STATE_FATAL or PROCESS_STATE_EXITED and the watch set (the startup arguments) is
  empty or holds the process name of the body. It is false for every other event name,
  whatever the body holds, and for a process name that the non-empty watch set does not
  hold. It is a function of the event name, the process name and the watch set alone.
  Where a key that the conditions read is absent, the lookup raises \<open>KeyError\<close>.
\<close>

theorem qualifying_iff:
  "(qualifying args headers body = Inr True \<longleftrightarrow>
      (headers ''eventname'' = Some ''PROCESS_STATE_FATAL''
         \<or> headers ''eventname'' = Some ''PROCESS_STATE_EXITED'')
      \<and> (args = [] \<or> (\<exists>pn. body ''processname'' = Some pn \<and> pn \<in> set args)))
   \<and> (headers ''eventname'' = Some ev \<and> ev \<noteq> ''PROCESS_STATE_FATAL''
        \<and> ev \<noteq> ''PROCESS_STATE_EXITED''
      \<longrightarrow> qualifying args headers body = Inr False)
   \<and> (headers ''eventname'' = Some ev \<and> args \<noteq> [] \<and> body ''processname'' = Some pn
        \<and> pn \<notin> set args
      \<longrightarrow> qualifying args headers body = Inr False)
   \<and> (headers ''eventname'' = Some ev \<and> body ''processname'' = Some pn
      \<longrightarrow> qualifying args headers body =
            Inr ((ev = ''PROCESS_STATE_FATAL'' \<or> ev = ''PROCESS_STATE_EXITED'')
                 \<and> (args = [] \<or> pn \<in> set args)))
   \<and> (headers ''eventname'' = None
      \<longrightarrow> qualifying args headers body = Inl (KeyError ''eventname''))
   \<and> (headers ''eventname'' = Some ev
        \<and> (ev = ''PROCESS_STATE_FATAL'' \<or> ev = ''PROCESS_STATE_EXITED'')
        \<and> args \<noteq> [] \<and> body ''processname'' = None
      \<longrightarrow> qualifying args headers body = Inl (KeyError ''processname''))"
proof -
  have a: "qualifying args headers body = Inr True \<longleftrightarrow>
      (headers ''eventname'' = Some ''PROCESS_STATE_FATAL''
         \<or> headers ''eventname'' = Some ''PROCESS_STATE_EXITED'')
      \<and> (args = [] \<or> (\<exists>pn. body ''processname'' = Some pn \<and> pn \<in> set args))"
    by (auto simp: qualifying_def getitem_def split: option.splits)
  have b: "qualifying args headers body = Inr False"
    if "headers ''eventname'' = Some ev" "ev \<noteq> ''PROCESS_STATE_FATAL''"
      "ev \<noteq> ''PROCESS_STATE_EXITED''"
    using that by (simp add: qualifying_def getitem_def)
  have c: "qualifying args headers body = Inr False"
    if "headers ''eventname'' = Some ev" "args \<noteq> []" "body ''processname'' = Some pn"
      "pn \<notin> set args"
    using that by (simp add: qualifying_def getitem_def)
  have d: "qualifying args headers body =
            Inr ((ev = ''PROCESS_STATE_FATAL'' \<or> ev = ''PROCESS_STATE_EXITED'')
                 \<and> (args = [] \<or> pn \<in> set args))"
    if "headers ''eventname'' = Some ev" "body ''processname'' = Some pn"
    using that by (simp add: qualifying_def getitem_def)
  have e: "qualifying args headers body = Inl (KeyError ''eventname'')"
    if "headers ''eventname'' = None"
    using that by (simp add: qualifying_def getitem_def)
  have f: "qualifying args headers body = Inl (KeyError ''processname'')"
    if "headers ''eventname'' = Some ev"
      "ev = ''PROCESS_STATE_FATAL'' \<or> ev = ''PROCESS_STATE_EXITED''"
      "args \<noteq> []" "body ''processname'' = None"
    using that by (auto simp: qualifying_def getitem_def)
  show ?thesis
    apply (intro conjI impI)
    subgoal by (rule a)
    subgoal using b by simp
    subgoal using c by simp
    subgoal using d by simp
    subgoal using e by simp
    subgoal using f by simp
    done
qed

theorem qualifying_iff_witness:
  "qualifying [''game''] [''eventname'' \<mapsto> ''PROCESS_STATE_EXITED'']
        [''processname'' \<mapsto> ''sidecar''] = Inr False
   \<and> qualifying [''game''] [''eventname'' \<mapsto> ''PROCESS_STATE_FATAL'']
        [''processname'' \<mapsto> ''game''] = Inr True
   \<and> qualifying [] [''eventname'' \<mapsto> ''PROCESS_STATE_EXITED''] [''expected'' \<mapsto> ''0''] = Inr True
   \<and> qualifying [''game''] [''eventname'' \<mapsto> ''TICK_5''] [''when'' \<mapsto> ''1''] = Inr False
   \<and> qualifying [''game''] [''len'' \<mapsto> ''0''] Map.empty = Inl (KeyError ''eventname'')
   \<and> qualifying [''game''] [''eventname'' \<mapsto> ''PROCESS_STATE_EXITED''] [''expected'' \<mapsto> ''0'']
        = Inl (KeyError ''processname'')"
  using
    qualifying_iff [of "[''game'']" "[''eventname'' \<mapsto> ''PROCESS_STATE_EXITED'']"
      "[''processname'' \<mapsto> ''sidecar'']" "''PROCESS_STATE_EXITED''" "''sidecar''"]
    qualifying_iff [of "[''game'']" "[''eventname'' \<mapsto> ''PROCESS_STATE_FATAL'']"
      "[''processname'' \<mapsto> ''game'']" "''PROCESS_STATE_FATAL''" "''game''"]
    qualifying_iff [of "[]" "[''eventname'' \<mapsto> ''PROCESS_STATE_EXITED'']"
      "[''expected'' \<mapsto> ''0'']" "''PROCESS_STATE_EXITED''" "''x''"]
    qualifying_iff [of "[''game'']" "[''eventname'' \<mapsto> ''TICK_5'']"
      "[''when'' \<mapsto> ''1'']" "''TICK_5''" "''x''"]
    qualifying_iff [of "[''game'']" "[''len'' \<mapsto> ''0'']" "Map.empty" "''x''" "''x''"]
    qualifying_iff [of "[''game'']" "[''eventname'' \<mapsto> ''PROCESS_STATE_EXITED'']"
      "[''expected'' \<mapsto> ''0'']" "''PROCESS_STATE_EXITED''" "''x''"]
  by simp

section \<open>The body parser\<close>

lemma split_on_nonempty: "split_on c s \<noteq> []"
  by (induction s) (auto simp: neq_Nil_conv)

lemma split_on_no_sep: "c \<notin> set s \<Longrightarrow> split_on c s = [s]"
  by (induction s) auto

lemma dict_update_bad:
  "p \<in> set ps \<Longrightarrow> length p \<noteq> 2 \<Longrightarrow> dict_update d ps = Inl ValueError"
  by (induction d ps rule: dict_update.induct) auto

lemma dict_update_exn: "dict_update d ps = Inl e \<Longrightarrow> e = ValueError"
  by (induction d ps rule: dict_update.induct) auto

lemma parse_body_exn: "parse_body body = Inl e \<Longrightarrow> e = ValueError"
  unfolding parse_body_def py_dict_def by (rule dict_update_exn)

lemma token_without_colon:
  assumes "tok \<in> set (split_on CHR '' '' body)" and "CHR '':'' \<notin> set tok"
  shows "parse_body body = Inl ValueError"
proof -
  have "split_on CHR '':'' tok = [tok]"
    using assms(2) by (rule split_on_no_sep)
  then have "[tok] \<in> set (map (split_on CHR '':'') (split_on CHR '' '' body))"
    using assms(1) by force
  then show ?thesis
    unfolding parse_body_def py_dict_def by (rule dict_update_bad) simp
qed

section \<open>Debug mode\<close>

lemma main_loop_debug_frame:
  "parse_body body = Inr fields \<Longrightarrow>
   main_loop True args spawn n (Frame headers body # rest) =
     emit [Recv headers body] (main_loop True args spawn n rest)"
  by simp

lemma main_loop_bad_body:
  "parse_body body = Inl e \<Longrightarrow>
   main_loop dbg args spawn n (Frame headers body # rest) = ([Recv headers body], Uncaught e)"
  by simp

lemma main_loop_debug_prefix:
  "\<forall>(h, b) \<in> set pre. \<exists>fields. parse_body b = Inr fields \<Longrightarrow>
   main_loop True args spawn n (frames pre @ inp) = emit (recvs pre) (main_loop True args spawn n inp)"
proof (induction pre)
  case Nil
  show ?case by (cases "main_loop True args spawn n inp") (simp add: frames_def recvs_def)
next
  case (Cons f pre)
  obtain h b where f: "f = (h, b)" by (cases f)
  from Cons.prems f obtain fields where p: "parse_body b = Inr fields" by auto
  from Cons.prems have "\<forall>(h, b) \<in> set pre. \<exists>fields. parse_body b = Inr fields" by simp
  then have ih: "main_loop True args spawn n (frames pre @ inp) = emit (recvs pre) (main_loop True args spawn n inp)"
    by (rule Cons.IH)
  show ?case
    using p ih f by (cases "main_loop True args spawn n inp") (simp add: frames_def recvs_def)
qed

text \<open>
  C10: in debug mode too, the body of every frame is parsed before the frame is skipped.
  After frames whose bodies parse, a frame whose body does not parse ends the process by
  the parser's exception, which nothing catches: the trace holds the frames read and no
  OK or FAIL reply, no sleep and no call of the shutdown command.
\<close>

theorem debug_mode_malformed_body:
  assumes "environ ''DEBUG'' = Some v"
    and "\<forall>(h, b) \<in> set pre. \<exists>fields. parse_body b = Inr fields"
    and "parse_body body = Inl e"
  shows "main args environ spawn (frames pre @ Frame headers body # rest) =
           (Log_info ''Listening for events...'' # recvs pre @ [Recv headers body],
            Uncaught ValueError)"
proof -
  have e: "e = ValueError" using assms(3) by (rule parse_body_exn)
  have "main_loop True args spawn 0 (frames pre @ Frame headers body # rest) =
          emit (recvs pre) (main_loop True args spawn 0 (Frame headers body # rest))"
    using assms(2) by (rule main_loop_debug_prefix)
  also have "\<dots> = (recvs pre @ [Recv headers body], Uncaught ValueError)"
    using assms(3) e by simp
  finally show ?thesis
    using assms(1) by (simp add: main_def debug_mode_of_def)
qed

theorem debug_mode_malformed_body_witness:
  "[''DEBUG'' \<mapsto> ''0''] ''DEBUG'' = Some ''0''
   \<and> parse_body ''when:1'' = Inr [''when'' \<mapsto> ''1'']
   \<and> parse_body ''badtoken'' = Inl ValueError
   \<and> main [] [''DEBUG'' \<mapsto> ''0''] (\<lambda>k. Call_returns 0)
        (frames [([''eventname'' \<mapsto> ''TICK_5''], ''when:1'')]
           @ Frame [''eventname'' \<mapsto> ''PROCESS_STATE_EXITED''] ''badtoken'' # []) =
      (Log_info ''Listening for events...''
         # recvs [([''eventname'' \<mapsto> ''TICK_5''], ''when:1'')]
         @ [Recv [''eventname'' \<mapsto> ''PROCESS_STATE_EXITED''] ''badtoken''],
       Uncaught ValueError)"
proof -
  have a: "[''DEBUG'' \<mapsto> ''0''] ''DEBUG'' = Some ''0''" by simp
  have b: "\<forall>(h, b) \<in> set [([''eventname'' \<mapsto> ''TICK_5''], ''when:1'')]. \<exists>fields. parse_body b = Inr fields"
    by (simp add: parse_body_def py_dict_def)
  have c: "parse_body ''badtoken'' = Inl ValueError"
    by (simp add: parse_body_def py_dict_def)
  have d: "parse_body ''when:1'' = Inr [''when'' \<mapsto> ''1'']"
    by (simp add: parse_body_def py_dict_def)
  show ?thesis
    using a c d
      debug_mode_malformed_body [where environ = "[''DEBUG'' \<mapsto> ''0'']" and v = "''0''"
        and pre = "[([''eventname'' \<mapsto> ''TICK_5''], ''when:1'')]"
        and body = "''badtoken''" and e = ValueError, OF a b c]
    by blast
qed

section \<open>One iteration of the loop\<close>

lemma shutdown_events_protocol: "filter is_protocol shutdown_events = []"
  by (simp add: shutdown_events_def)

lemma shutdown_events_reply: "filter is_reply shutdown_events = []"
  by (simp add: shutdown_events_def)


lemma try_block_cases:
  assumes "try_block args spawn n headers fields = (evs, x, n')"
  shows "(evs = [] \<and> n' = n \<and> qualifying args headers fields \<noteq> Inr True)
       \<or> (evs = shutdown_events \<and> n' = Suc n \<and> qualifying args headers fields = Inr True
            \<and> x = (case spawn n of Call_returns rc \<Rightarrow> None | Call_raises e \<Rightarrow> Some e))"
  using assms
  by (auto simp: try_block_def shutdown_supervisord_def split: sum.splits if_splits)

lemma try_block_qualifying:
  "qualifying args headers fields = Inr True \<Longrightarrow>
   try_block args spawn n headers fields =
     (shutdown_events, (case spawn n of Call_returns rc \<Rightarrow> None | Call_raises e \<Rightarrow> Some e), Suc n)"
  by (simp add: try_block_def shutdown_supervisord_def)

lemma try_block_not_qualifying:
  "qualifying args headers fields = Inr False \<Longrightarrow>
   try_block args spawn n headers fields = ([], None, n)"
  by (simp add: try_block_def)

lemma try_block_protocol:
  "try_block args spawn n headers fields = (evs, x, n') \<Longrightarrow> filter is_protocol evs = []"
  by (auto dest!: try_block_cases simp: shutdown_events_protocol)

lemma try_block_reply:
  "try_block args spawn n headers fields = (evs, x, n') \<Longrightarrow> filter is_reply evs = []"
  by (auto dest!: try_block_cases simp: shutdown_events_reply)


lemma main_loop_step_fail:
  "parse_body body = Inr fields \<Longrightarrow> try_block args spawn n headers fields = (evs, Some e, n') \<Longrightarrow>
   main_loop False args spawn n (Frame headers body # rest) =
     (Recv headers body # evs @ [Log_critical e, Send_fail], Sys_exit 1)"
  by simp

lemma fst_emit: "fst (emit evs r) = evs @ fst r"
  by (cases r) simp

lemma snd_emit: "snd (emit evs r) = snd r"
  by (cases r) simp

lemma main_unfold:
  "main args environ spawn stdin =
     emit [Log_info ''Listening for events...'']
       (main_loop (environ ''DEBUG'' \<noteq> None) args spawn 0 stdin)"
  by (simp add: main_def debug_mode_of_def)

section \<open>A body that does not parse\<close>

text \<open>
  C4: the claim asks for a FAIL reply and a non-zero exit after a malformed body. The body
  is parsed outside the \<open>try\<close> block, so on the frame with body \<open>badtoken\<close> the
  \<open>ValueError\<close> of \<open>dict\<close> is caught by nothing: the process ends with the traceback
  (exit status 1), the shutdown command is not called, and no FAIL reply is written.
\<close>

theorem malformed_body_no_fail_reply:
  "main [] Map.empty (\<lambda>k. Call_returns 0)
     [Frame [''eventname'' \<mapsto> ''PROCESS_STATE_EXITED''] ''badtoken''] =
   ([Log_info ''Listening for events...'',
     Recv [''eventname'' \<mapsto> ''PROCESS_STATE_EXITED''] ''badtoken''],
    Uncaught ValueError)"
  by (simp add: main_def debug_mode_of_def parse_body_def py_dict_def)

section \<open>How often the shutdown command is called\<close>





section \<open>A shutdown command that cannot be spawned\<close>

text \<open>
  Against C5 as stated: the first frame qualifies and \<open>subprocess.call\<close> raises
  \<open>OSError\<close>. The handler of the \<open>try\<close> block logs it, writes FAIL and exits with
  status 1.
\<close>

theorem spawn_failure_counterexample:
  "main [] Map.empty (\<lambda>k. Call_raises OSError)
     [Frame [''eventname'' \<mapsto> ''PROCESS_STATE_EXITED''] ''processname:game expected:0''] =
   (Log_info ''Listening for events...''
      # Recv [''eventname'' \<mapsto> ''PROCESS_STATE_EXITED''] ''processname:game expected:0''
      # shutdown_events @ [Log_critical OSError, Send_fail],
    Sys_exit 1)"
  by (simp add: main_def debug_mode_of_def parse_body_def py_dict_def try_block_def
      qualifying_def getitem_def shutdown_supervisord_def)

lemma frame_cleanD:
  "frame_clean args (h, b) \<Longrightarrow>
   \<exists>fields q. parse_body b = Inr fields \<and> qualifying args h fields = Inr q
      \<and> frame_qualifies args (h, b) = q"
  by (auto simp: frame_clean_def frame_qualifies_def split: sum.splits)

lemma frame_qualifiesD:
  "frame_qualifies args (h, b) \<Longrightarrow>
   \<exists>fields. parse_body b = Inr fields \<and> qualifying args h fields = Inr True"
  by (auto simp: frame_qualifies_def split: sum.splits)

lemma main_loop_clean_prefix:
  assumes "\<forall>f \<in> set pre. frame_clean args f"
    and "\<forall>j < length (filter (frame_qualifies args) pre). \<exists>rc. spawn (n + j) = Call_returns rc"
  shows "\<exists>tr. main_loop False args spawn n (frames pre @ inp) =
            emit tr (main_loop False args spawn (n + length (filter (frame_qualifies args) pre)) inp)
          \<and> Send_fail \<notin> set tr
          \<and> filter is_protocol tr = concat (map (\<lambda>(h, b). [Recv h b, Send_ok]) pre)"
  using assms
proof (induction pre arbitrary: n)
  case Nil
  have "main_loop False args spawn n (frames [] @ inp) =
            emit [] (main_loop False args spawn (n + length (filter (frame_qualifies args) [])) inp)
          \<and> Send_fail \<notin> set []
          \<and> filter is_protocol [] = concat (map (\<lambda>(h, b). [Recv h b, Send_ok]) [])"
    by (cases "main_loop False args spawn n inp") (simp add: frames_def)
  then show ?case by (intro exI)
next
  case (Cons f pre)
  obtain h b where f: "f = (h, b)" by (cases f)
  from Cons.prems(1) f have "frame_clean args (h, b)" by simp
  then obtain fields q where p: "parse_body b = Inr fields"
    and qq: "qualifying args h fields = Inr q" and fq: "frame_qualifies args (h, b) = q"
    using frame_cleanD by blast
  from Cons.prems(1) have clean: "\<forall>f \<in> set pre. frame_clean args f" by simp
  have fr: "frames (f # pre) @ inp = Frame h b # (frames pre @ inp)"
    using f by (simp add: frames_def)
  show ?case
  proof (cases q)
    case True
    have cnt: "length (filter (frame_qualifies args) (f # pre)) =
        Suc (length (filter (frame_qualifies args) pre))"
      using f fq True by simp
    have "0 < length (filter (frame_qualifies args) (f # pre))" using cnt by simp
    with Cons.prems(2) have "\<exists>rc. spawn (n + 0) = Call_returns rc" by blast
    then obtain rc where rc: "spawn n = Call_returns rc" by auto
    have t: "try_block args spawn n h fields = (shutdown_events, None, Suc n)"
      using qq True rc by (simp add: try_block_qualifying)
    have "\<forall>j < length (filter (frame_qualifies args) pre). \<exists>rc. spawn (Suc n + j) = Call_returns rc"
    proof (intro allI impI)
      fix j assume "j < length (filter (frame_qualifies args) pre)"
      then have "Suc j < length (filter (frame_qualifies args) (f # pre))" using cnt by simp
      with Cons.prems(2) have "\<exists>rc. spawn (n + Suc j) = Call_returns rc" by blast
      then show "\<exists>rc. spawn (Suc n + j) = Call_returns rc" by simp
    qed
    with clean have "\<exists>tr. main_loop False args spawn (Suc n) (frames pre @ inp) =
            emit tr (main_loop False args spawn (Suc n + length (filter (frame_qualifies args) pre)) inp)
          \<and> Send_fail \<notin> set tr
          \<and> filter is_protocol tr = concat (map (\<lambda>(h, b). [Recv h b, Send_ok]) pre)"
      by (rule Cons.IH)
    then obtain tr where ih: "main_loop False args spawn (Suc n) (frames pre @ inp) =
            emit tr (main_loop False args spawn (Suc n + length (filter (frame_qualifies args) pre)) inp)"
        "Send_fail \<notin> set tr"
        "filter is_protocol tr = concat (map (\<lambda>(h, b). [Recv h b, Send_ok]) pre)"
      by (elim exE conjE)
    let ?r = "main_loop False args spawn (n + length (filter (frame_qualifies args) (f # pre))) inp"
    have "main_loop False args spawn n (frames (f # pre) @ inp) =
            emit ((Recv h b # shutdown_events @ [Send_ok]) @ tr) ?r
          \<and> Send_fail \<notin> set ((Recv h b # shutdown_events @ [Send_ok]) @ tr)
          \<and> filter is_protocol ((Recv h b # shutdown_events @ [Send_ok]) @ tr) =
              concat (map (\<lambda>(h, b). [Recv h b, Send_ok]) (f # pre))"
      unfolding fr using p t ih f cnt
      by (cases ?r) (simp add: shutdown_events_protocol, simp add: shutdown_events_def)
    then show ?thesis by (intro exI)
  next
    case False
    have cnt: "length (filter (frame_qualifies args) (f # pre)) =
        length (filter (frame_qualifies args) pre)"
      using f fq False by simp
    have t: "try_block args spawn n h fields = ([], None, n)"
      using qq False by (simp add: try_block_not_qualifying)
    from Cons.prems(2) cnt
    have "\<forall>j < length (filter (frame_qualifies args) pre). \<exists>rc. spawn (n + j) = Call_returns rc"
      by simp
    with clean have "\<exists>tr. main_loop False args spawn n (frames pre @ inp) =
            emit tr (main_loop False args spawn (n + length (filter (frame_qualifies args) pre)) inp)
          \<and> Send_fail \<notin> set tr
          \<and> filter is_protocol tr = concat (map (\<lambda>(h, b). [Recv h b, Send_ok]) pre)"
      by (rule Cons.IH)
    then obtain tr where ih: "main_loop False args spawn n (frames pre @ inp) =
            emit tr (main_loop False args spawn (n + length (filter (frame_qualifies args) pre)) inp)"
        "Send_fail \<notin> set tr"
        "filter is_protocol tr = concat (map (\<lambda>(h, b). [Recv h b, Send_ok]) pre)"
      by (elim exE conjE)
    let ?r = "main_loop False args spawn (n + length (filter (frame_qualifies args) (f # pre))) inp"
    have "main_loop False args spawn n (frames (f # pre) @ inp) =
            emit ([Recv h b, Send_ok] @ tr) ?r
          \<and> Send_fail \<notin> set ([Recv h b, Send_ok] @ tr)
          \<and> filter is_protocol ([Recv h b, Send_ok] @ tr) =
              concat (map (\<lambda>(h, b). [Recv h b, Send_ok]) (f # pre))"
      unfolding fr using p t ih f cnt by (cases ?r) simp
    then show ?thesis by (intro exI)
  qed
qed

text \<open>
  C5, amended: when the shutdown command cannot be spawned, the exception is caught like
  any other exception of the \<open>try\<close> block: it is logged as critical, a FAIL reply is
  written for that frame and the process exits with status 1. This holds at every
  iteration of the loop, whatever the number of earlier calls; and in a whole run, after
  any frames that were answered OK, for the first call of the command that fails.
\<close>

theorem spawn_failure_escalated:
  "(parse_body body = Inr fields \<and> qualifying args headers fields = Inr True
      \<and> spawn n = Call_raises e
    \<longrightarrow> main_loop False args spawn n (Frame headers body # rest) =
          (Recv headers body # shutdown_events @ [Log_critical e, Send_fail], Sys_exit 1))
   \<and> (environ ''DEBUG'' = None
      \<and> (\<forall>f \<in> set pre. frame_clean args f)
      \<and> (\<forall>j < length (filter (frame_qualifies args) pre). \<exists>rc. spawn j = Call_returns rc)
      \<and> spawn (length (filter (frame_qualifies args) pre)) = Call_raises e
      \<and> frame_qualifies args (headers, body)
    \<longrightarrow> (\<exists>tr. main args environ spawn (frames pre @ Frame headers body # rest) =
               (Log_info ''Listening for events...'' # tr
                  @ Recv headers body # shutdown_events @ [Log_critical e, Send_fail],
                Sys_exit 1)
             \<and> Send_fail \<notin> set tr
             \<and> filter is_protocol tr = concat (map (\<lambda>(h, b). [Recv h b, Send_ok]) pre))
        \<and> exit_status (snd (main args environ spawn (frames pre @ Frame headers body # rest))) = 1)"
proof -
  have step: "main_loop False args spawn n (Frame headers body # rest) =
          (Recv headers body # shutdown_events @ [Log_critical e, Send_fail], Sys_exit 1)"
    if "parse_body body = Inr fields" "qualifying args headers fields = Inr True"
      "spawn n = Call_raises e" for n fields
  proof -
    have "try_block args spawn n headers fields = (shutdown_events, Some e, Suc n)"
      using that(2,3) by (simp add: try_block_qualifying)
    with that(1) show ?thesis by (rule main_loop_step_fail)
  qed
  have run: "(\<exists>tr. main args environ spawn (frames pre @ Frame headers body # rest) =
               (Log_info ''Listening for events...'' # tr
                  @ Recv headers body # shutdown_events @ [Log_critical e, Send_fail],
                Sys_exit 1)
             \<and> Send_fail \<notin> set tr
             \<and> filter is_protocol tr = concat (map (\<lambda>(h, b). [Recv h b, Send_ok]) pre))
        \<and> exit_status (snd (main args environ spawn (frames pre @ Frame headers body # rest))) = 1"
    if d: "environ ''DEBUG'' = None"
      and clean: "\<forall>f \<in> set pre. frame_clean args f"
      and ret: "\<forall>j < length (filter (frame_qualifies args) pre). \<exists>rc. spawn j = Call_returns rc"
      and raises: "spawn (length (filter (frame_qualifies args) pre)) = Call_raises e"
      and q: "frame_qualifies args (headers, body)"
  proof -
    let ?k = "length (filter (frame_qualifies args) pre)"
    from q obtain fields where p: "parse_body body = Inr fields"
      and qq: "qualifying args headers fields = Inr True"
      using frame_qualifiesD by blast
    from ret have "\<forall>j < ?k. \<exists>rc. spawn (0 + j) = Call_returns rc" by simp
    with clean have "\<exists>tr. main_loop False args spawn 0 (frames pre @ Frame headers body # rest) =
            emit tr (main_loop False args spawn (0 + ?k) (Frame headers body # rest))
          \<and> Send_fail \<notin> set tr
          \<and> filter is_protocol tr = concat (map (\<lambda>(h, b). [Recv h b, Send_ok]) pre)"
      by (rule main_loop_clean_prefix)
    then obtain tr where tr: "main_loop False args spawn 0 (frames pre @ Frame headers body # rest) =
            emit tr (main_loop False args spawn (0 + ?k) (Frame headers body # rest))"
        "Send_fail \<notin> set tr"
        "filter is_protocol tr = concat (map (\<lambda>(h, b). [Recv h b, Send_ok]) pre)"
      by (elim exE conjE)
    have s: "main_loop False args spawn ?k (Frame headers body # rest) =
          (Recv headers body # shutdown_events @ [Log_critical e, Send_fail], Sys_exit 1)"
      using p qq raises by (rule step)
    have m: "main args environ spawn (frames pre @ Frame headers body # rest) =
               (Log_info ''Listening for events...'' # tr
                  @ Recv headers body # shutdown_events @ [Log_critical e, Send_fail],
                Sys_exit 1)"
      using d tr(1) s by (simp add: main_unfold)
    have "main args environ spawn (frames pre @ Frame headers body # rest) =
               (Log_info ''Listening for events...'' # tr
                  @ Recv headers body # shutdown_events @ [Log_critical e, Send_fail],
                Sys_exit 1)
             \<and> Send_fail \<notin> set tr
             \<and> filter is_protocol tr = concat (map (\<lambda>(h, b). [Recv h b, Send_ok]) pre)"
      using m tr(2,3) by simp
    then have "\<exists>tr. main args environ spawn (frames pre @ Frame headers body # rest) =
               (Log_info ''Listening for events...'' # tr
                  @ Recv headers body # shutdown_events @ [Log_critical e, Send_fail],
                Sys_exit 1)
             \<and> Send_fail \<notin> set tr
             \<and> filter is_protocol tr = concat (map (\<lambda>(h, b). [Recv h b, Send_ok]) pre)"
      by (intro exI)
    moreover have "exit_status (snd (main args environ spawn (frames pre @ Frame headers body # rest))) = 1"
      using m by simp
    ultimately show ?thesis by (rule conjI)
  qed
  show ?thesis
    apply (intro conjI impI)
    subgoal using step by simp
    subgoal using run by simp
    subgoal using run by simp
    done
qed

theorem spawn_failure_escalated_witness:
  "frame_clean [] ([''eventname'' \<mapsto> ''TICK_5''], ''when:1'')
   \<and> frame_clean [] ([''eventname'' \<mapsto> ''PROCESS_STATE_EXITED''], ''processname:game'')
   \<and> length (filter (frame_qualifies [])
        [([''eventname'' \<mapsto> ''TICK_5''], ''when:1''),
         ([''eventname'' \<mapsto> ''PROCESS_STATE_EXITED''], ''processname:game'')]) = 1
   \<and> frame_qualifies [] ([''eventname'' \<mapsto> ''PROCESS_STATE_FATAL''], ''processname:game'')
   \<and> (\<exists>tr. main [] Map.empty (\<lambda>k. if k = 0 then Call_returns 0 else Call_raises OSError)
          (frames [([''eventname'' \<mapsto> ''TICK_5''], ''when:1''),
                   ([''eventname'' \<mapsto> ''PROCESS_STATE_EXITED''], ''processname:game'')]
             @ Frame [''eventname'' \<mapsto> ''PROCESS_STATE_FATAL''] ''processname:game'' # []) =
               (Log_info ''Listening for events...'' # tr
                  @ Recv [''eventname'' \<mapsto> ''PROCESS_STATE_FATAL''] ''processname:game''
                  # shutdown_events @ [Log_critical OSError, Send_fail],
                Sys_exit 1)
             \<and> Send_fail \<notin> set tr
             \<and> filter is_protocol tr = concat (map (\<lambda>(h, b). [Recv h b, Send_ok])
                 [([''eventname'' \<mapsto> ''TICK_5''], ''when:1''),
                  ([''eventname'' \<mapsto> ''PROCESS_STATE_EXITED''], ''processname:game'')]))
   \<and> exit_status (snd (main [] Map.empty (\<lambda>k. if k = 0 then Call_returns 0 else Call_raises OSError)
          (frames [([''eventname'' \<mapsto> ''TICK_5''], ''when:1''),
                   ([''eventname'' \<mapsto> ''PROCESS_STATE_EXITED''], ''processname:game'')]
             @ Frame [''eventname'' \<mapsto> ''PROCESS_STATE_FATAL''] ''processname:game'' # []))) = 1
   \<and> main_loop False [] (\<lambda>k. if k = 0 then Call_returns 0 else Call_raises OSError) 1
        (Frame [''eventname'' \<mapsto> ''PROCESS_STATE_FATAL''] ''processname:game'' # []) =
          (Recv [''eventname'' \<mapsto> ''PROCESS_STATE_FATAL''] ''processname:game''
             # shutdown_events @ [Log_critical OSError, Send_fail], Sys_exit 1)"
proof -
  let ?pre = "[([''eventname'' \<mapsto> ''TICK_5''], ''when:1''),
               ([''eventname'' \<mapsto> ''PROCESS_STATE_EXITED''], ''processname:game'')]"
  let ?spawn = "\<lambda>k::nat. if k = 0 then Call_returns 0 else Call_raises OSError"
  let ?h = "[''eventname'' \<mapsto> ''PROCESS_STATE_FATAL'']"
  have p1: "parse_body ''when:1'' = Inr [''when'' \<mapsto> ''1'']"
    by (simp add: parse_body_def py_dict_def)
  have p2: "parse_body ''processname:game'' = Inr [''processname'' \<mapsto> ''game'']"
    by (simp add: parse_body_def py_dict_def)
  have c1: "frame_clean [] ([''eventname'' \<mapsto> ''TICK_5''], ''when:1'')"
    by (simp add: frame_clean_def p1 qualifying_def getitem_def)
  have c2: "frame_clean [] ([''eventname'' \<mapsto> ''PROCESS_STATE_EXITED''], ''processname:game'')"
    by (simp add: frame_clean_def p2 qualifying_def getitem_def)
  have k: "length (filter (frame_qualifies []) ?pre) = 1"
    by (simp add: frame_qualifies_def p1 p2 qualifying_def getitem_def)
  have q: "frame_qualifies [] (?h, ''processname:game'')"
    by (simp add: frame_qualifies_def p2 qualifying_def getitem_def)
  have qq: "qualifying [] ?h [''processname'' \<mapsto> ''game''] = Inr True"
    by (simp add: qualifying_def getitem_def)
  note T = spawn_failure_escalated [where body = "''processname:game''"
      and fields = "[''processname'' \<mapsto> ''game'']" and args = "[]" and headers = ?h
      and spawn = ?spawn and n = 1 and e = OSError and rest = "[]" and environ = Map.empty
      and pre = ?pre]
  have H1: "parse_body ''processname:game'' = Inr [''processname'' \<mapsto> ''game'']
      \<and> qualifying [] ?h [''processname'' \<mapsto> ''game''] = Inr True
      \<and> ?spawn 1 = Call_raises OSError"
    using p2 qq by simp
  have H2: "Map.empty ''DEBUG'' = (None :: string option)
      \<and> (\<forall>f \<in> set ?pre. frame_clean [] f)
      \<and> (\<forall>j < length (filter (frame_qualifies []) ?pre). \<exists>rc. ?spawn j = Call_returns rc)
      \<and> ?spawn (length (filter (frame_qualifies []) ?pre)) = Call_raises OSError
      \<and> frame_qualifies [] (?h, ''processname:game'')"
    using c1 c2 q unfolding k by simp
  have C1: "main_loop False [] ?spawn 1 (Frame ?h ''processname:game'' # []) =
          (Recv ?h ''processname:game'' # shutdown_events @ [Log_critical OSError, Send_fail],
           Sys_exit 1)"
    using T [THEN conjunct1] H1 by (rule mp)
  have C2: "(\<exists>tr. main [] Map.empty ?spawn (frames ?pre @ Frame ?h ''processname:game'' # []) =
               (Log_info ''Listening for events...'' # tr
                  @ Recv ?h ''processname:game'' # shutdown_events @ [Log_critical OSError, Send_fail],
                Sys_exit 1)
             \<and> Send_fail \<notin> set tr
             \<and> filter is_protocol tr = concat (map (\<lambda>(h, b). [Recv h b, Send_ok]) ?pre))
        \<and> exit_status (snd (main [] Map.empty ?spawn
              (frames ?pre @ Frame ?h ''processname:game'' # []))) = 1"
    using T [THEN conjunct2] H2 by (rule mp)
  show ?thesis
    by (rule conjI [OF c1 conjI [OF c2 conjI [OF k conjI [OF q
          conjI [OF conjunct1 [OF C2] conjI [OF conjunct2 [OF C2] C1]]]]]])
qed

section \<open>The end of the input stream\<close>








section \<open>The grace delay\<close>

lemma graced_Nil: "graced []"
  by (simp add: graced_def)

lemma graced_Cons: "graced tr \<Longrightarrow> \<not> is_call e \<Longrightarrow> graced (e # tr)"
  unfolding graced_def
proof (intro allI impI)
  fix pre cmd post
  assume g: "\<forall>pre cmd post. tr = pre @ Subprocess_call cmd # post \<longrightarrow>
      cmd = shutdown_cmd
      \<and> (\<exists>pre'. pre = pre' @ [Sleep 10, Log_info ''[WATCHER] Shutting down supervisord...''])"
    and e: "\<not> is_call e" and eq: "e # tr = pre @ Subprocess_call cmd # post"
  from e eq obtain pre2 where pre: "pre = e # pre2" and tr: "tr = pre2 @ Subprocess_call cmd # post"
    by (cases pre) auto
  from g tr obtain pre' where "cmd = shutdown_cmd"
    and "pre2 = pre' @ [Sleep 10, Log_info ''[WATCHER] Shutting down supervisord...'']"
    by blast
  then show "cmd = shutdown_cmd
      \<and> (\<exists>pre'. pre = pre' @ [Sleep 10, Log_info ''[WATCHER] Shutting down supervisord...''])"
    using pre by auto
qed

lemma graced_call:
  assumes "graced tr"
  shows "graced (Sleep 10 # Log_info ''[WATCHER] Shutting down supervisord...''
                  # Subprocess_call shutdown_cmd # tr)"
  unfolding graced_def
proof (intro allI impI)
  fix pre cmd post
  let ?L = "Log_info ''[WATCHER] Shutting down supervisord...''"
  assume eq: "Sleep 10 # ?L # Subprocess_call shutdown_cmd # tr = pre @ Subprocess_call cmd # post"
  show "cmd = shutdown_cmd \<and> (\<exists>pre'. pre = pre' @ [Sleep 10, ?L])"
  proof (cases pre)
    case Nil
    with eq show ?thesis by simp
  next
    case (Cons a p1)
    show ?thesis
    proof (cases p1)
      case Nil
      with Cons eq show ?thesis by simp
    next
      case (Cons b p2)
      note p1 = this
      show ?thesis
      proof (cases p2)
        case Nil
        with \<open>pre = a # p1\<close> p1 eq show ?thesis by simp
      next
        case (Cons c p3)
        with \<open>pre = a # p1\<close> p1 eq
        have pre: "pre = Sleep 10 # ?L # Subprocess_call shutdown_cmd # p3"
          and tr: "tr = p3 @ Subprocess_call cmd # post" by simp_all
        from assms tr obtain pre' where "cmd = shutdown_cmd" and "p3 = pre' @ [Sleep 10, ?L]"
          unfolding graced_def by blast
        then show ?thesis using pre by auto
      qed
    qed
  qed
qed

lemma graced_shutdown_events: "graced tr \<Longrightarrow> graced (shutdown_events @ tr)"
  unfolding shutdown_events_def by (simp add: graced_Cons graced_call)

lemma graced_try_block:
  "try_block args spawn n headers fields = (evs, x, n') \<Longrightarrow> graced tr \<Longrightarrow> graced (evs @ tr)"
  by (auto dest!: try_block_cases simp: graced_shutdown_events)

lemma main_loop_graced: "graced (fst (main_loop dbg args spawn n inp))"
proof (induction inp arbitrary: n)
  case Nil
  show ?case by (simp add: graced_Nil)
next
  case (Cons a inp)
  show ?case
  proof (cases a)
    case (Wait_raises e)
    then show ?thesis by (simp add: graced_Nil)
  next
    case (Frame h b)
    show ?thesis
    proof (cases "parse_body b")
      case (Inl e)
      then show ?thesis using Frame by (simp add: graced_Nil graced_Cons)
    next
      case (Inr fields)
      show ?thesis
      proof (cases dbg)
        case True
        then show ?thesis using Frame Inr Cons.IH by (simp add: fst_emit graced_Cons)
      next
        case False
        obtain evs x n' where t: "try_block args spawn n h fields = (evs, x, n')"
          by (cases "try_block args spawn n h fields") auto
        show ?thesis
        proof (cases x)
          case None
          have "graced (evs @ Send_ok # fst (main_loop dbg args spawn n' inp))"
            using t by (rule graced_try_block) (simp add: graced_Cons Cons.IH)
          then show ?thesis
            using Frame Inr False t None by (simp add: fst_emit graced_Cons)
        next
          case (Some e)
          have "graced (evs @ [Log_critical e, Send_fail])"
            using t by (rule graced_try_block) (simp add: graced_Cons graced_Nil)
          then show ?thesis
            using Frame Inr False t Some by (simp add: graced_Cons)
        qed
      qed
    qed
  qed
qed

text \<open>
  C8: in every run, every call of a subprocess is the shutdown command and is directly
  preceded by \<open>time.sleep(10)\<close> and the log line after it; and a frame that qualifies
  is followed by the log line, the sleep of 10 seconds, the second log line and the call,
  in this order.
\<close>

theorem sleep_before_shutdown:
  "(fst (main args environ spawn stdin) = pre @ Subprocess_call cmd # post \<longrightarrow>
      cmd = shutdown_cmd
      \<and> (\<exists>pre'. pre = pre' @ [Sleep 10, Log_info ''[WATCHER] Shutting down supervisord...'']))
   \<and> (parse_body body = Inr fields \<and> qualifying args headers fields = Inr True \<longrightarrow>
        (\<exists>post'. fst (main_loop False args spawn n (Frame headers body # rest)) =
           Recv headers body # shutdown_events @ post'))"
proof -
  have "graced (fst (main args environ spawn stdin))"
    by (simp add: main_unfold fst_emit graced_Cons main_loop_graced)
  then have a: "fst (main args environ spawn stdin) = pre @ Subprocess_call cmd # post \<longrightarrow>
      cmd = shutdown_cmd
      \<and> (\<exists>pre'. pre = pre' @ [Sleep 10, Log_info ''[WATCHER] Shutting down supervisord...''])"
    unfolding graced_def by blast
  have b: "\<exists>post'. fst (main_loop False args spawn n (Frame headers body # rest)) =
           Recv headers body # shutdown_events @ post'"
    if p: "parse_body body = Inr fields" and q: "qualifying args headers fields = Inr True"
  proof (cases "spawn n")
    case (Call_returns rc)
    then have "try_block args spawn n headers fields = (shutdown_events, None, Suc n)"
      using q by (simp add: try_block_qualifying)
    with p show ?thesis by (simp add: fst_emit)
  next
    case (Call_raises e)
    then have "try_block args spawn n headers fields = (shutdown_events, Some e, Suc n)"
      using q by (simp add: try_block_qualifying)
    with p show ?thesis by simp
  qed
  from a b show ?thesis by blast
qed

theorem sleep_before_shutdown_witness:
  "fst (main [] Map.empty (\<lambda>k. Call_returns 0)
      [Frame [''eventname'' \<mapsto> ''PROCESS_STATE_EXITED''] ''processname:game expected:0'']) =
     [Log_info ''Listening for events...'',
      Recv [''eventname'' \<mapsto> ''PROCESS_STATE_EXITED''] ''processname:game expected:0'',
      Log_info ''[WATCHER] Game not running or has exited. Waiting 10 seconds before shutting down supervisord...'',
      Sleep 10, Log_info ''[WATCHER] Shutting down supervisord...'']
     @ Subprocess_call shutdown_cmd # [Send_ok]
   \<and> (\<exists>pre'. [Log_info ''Listening for events...'',
      Recv [''eventname'' \<mapsto> ''PROCESS_STATE_EXITED''] ''processname:game expected:0'',
      Log_info ''[WATCHER] Game not running or has exited. Waiting 10 seconds before shutting down supervisord...'',
      Sleep 10, Log_info ''[WATCHER] Shutting down supervisord...'']
        = pre' @ [Sleep 10, Log_info ''[WATCHER] Shutting down supervisord...''])
   \<and> parse_body ''processname:game'' = Inr [''processname'' \<mapsto> ''game'']
   \<and> qualifying [] [''eventname'' \<mapsto> ''PROCESS_STATE_EXITED''] [''processname'' \<mapsto> ''game''] = Inr True
   \<and> (\<exists>post'. fst (main_loop False [] (\<lambda>k. Call_returns 0) 0
          (Frame [''eventname'' \<mapsto> ''PROCESS_STATE_EXITED''] ''processname:game'' # [])) =
           Recv [''eventname'' \<mapsto> ''PROCESS_STATE_EXITED''] ''processname:game'' # shutdown_events @ post')"
proof -
  have a: "fst (main [] Map.empty (\<lambda>k. Call_returns 0)
      [Frame [''eventname'' \<mapsto> ''PROCESS_STATE_EXITED''] ''processname:game expected:0'']) =
     [Log_info ''Listening for events...'',
      Recv [''eventname'' \<mapsto> ''PROCESS_STATE_EXITED''] ''processname:game expected:0'',
      Log_info ''[WATCHER] Game not running or has exited. Waiting 10 seconds before shutting down supervisord...'',
      Sleep 10, Log_info ''[WATCHER] Shutting down supervisord...'']
     @ Subprocess_call shutdown_cmd # [Send_ok]"
    by (simp add: main_def debug_mode_of_def parse_body_def py_dict_def try_block_def
        qualifying_def getitem_def shutdown_supervisord_def shutdown_events_def)
  have b: "parse_body ''processname:game'' = Inr [''processname'' \<mapsto> ''game'']"
    by (simp add: parse_body_def py_dict_def)
  have c: "qualifying [] [''eventname'' \<mapsto> ''PROCESS_STATE_EXITED''] [''processname'' \<mapsto> ''game''] = Inr True"
    by (simp add: qualifying_def getitem_def)
  show ?thesis
    using a b c
      sleep_before_shutdown [where args = "[]" and environ = Map.empty
        and spawn = "\<lambda>k. Call_returns 0"
        and stdin = "[Frame [''eventname'' \<mapsto> ''PROCESS_STATE_EXITED''] ''processname:game expected:0'']"
        and pre = "[Log_info ''Listening for events...'',
      Recv [''eventname'' \<mapsto> ''PROCESS_STATE_EXITED''] ''processname:game expected:0'',
      Log_info ''[WATCHER] Game not running or has exited. Waiting 10 seconds before shutting down supervisord...'',
      Sleep 10, Log_info ''[WATCHER] Shutting down supervisord...'']"
        and cmd = shutdown_cmd and post = "[Send_ok]"
        and body = "''processname:game''" and fields = "[''processname'' \<mapsto> ''game'']"
        and headers = "[''eventname'' \<mapsto> ''PROCESS_STATE_EXITED'']" and n = 0 and rest = "[]"]
    by blast
qed

section \<open>One reply for each frame\<close>

text \<open>
  Against C3 as stated: in debug mode a frame whose body parses is read and skipped by
  \<open>continue\<close>; the run holds no OK and no FAIL reply.
\<close>

theorem debug_mode_no_reply:
  "main [] [''DEBUG'' \<mapsto> ''0''] (\<lambda>k. Call_returns 0)
     [Frame [''eventname'' \<mapsto> ''PROCESS_STATE_RUNNING''] ''processname:game''] =
   ([Log_info ''Listening for events...'',
     Recv [''eventname'' \<mapsto> ''PROCESS_STATE_RUNNING''] ''processname:game''],
    Uncaught (KeyError ''len''))"
  by (simp add: main_def debug_mode_of_def parse_body_def py_dict_def)

lemma main_loop_parsed_prefix:
  assumes "\<forall>(h, b) \<in> set pre. \<exists>fields. parse_body b = Inr fields"
  shows "(filter is_protocol (fst (main_loop False args spawn n (frames pre @ rest))) =
             concat (map (\<lambda>(h, b). [Recv h b, Send_ok]) pre)
               @ filter is_protocol (fst (main_loop False args spawn
                   (n + length (filter (frame_qualifies args) pre)) rest))
           \<and> snd (main_loop False args spawn n (frames pre @ rest)) =
               snd (main_loop False args spawn
                   (n + length (filter (frame_qualifies args) pre)) rest))
       \<or> (\<exists>done h b todo. pre = done @ (h, b) # todo
           \<and> filter is_protocol (fst (main_loop False args spawn n (frames pre @ rest))) =
               concat (map (\<lambda>(h, b). [Recv h b, Send_ok]) done) @ [Recv h b, Send_fail]
           \<and> snd (main_loop False args spawn n (frames pre @ rest)) = Sys_exit 1)"
  using assms
proof (induction pre arbitrary: n)
  case Nil
  have "filter is_protocol (fst (main_loop False args spawn n (frames [] @ rest))) =
             concat (map (\<lambda>(h, b). [Recv h b, Send_ok]) [])
               @ filter is_protocol (fst (main_loop False args spawn
                   (n + length (filter (frame_qualifies args) [])) rest))
           \<and> snd (main_loop False args spawn n (frames [] @ rest)) =
               snd (main_loop False args spawn
                   (n + length (filter (frame_qualifies args) [])) rest)"
    by (simp add: frames_def)
  then show ?case by (rule disjI1)
next
  case (Cons f pre)
  obtain h b where f: "f = (h, b)" by (cases f)
  from Cons.prems f obtain fields where p: "parse_body b = Inr fields" by auto
  from Cons.prems have rest_ok: "\<forall>(h, b) \<in> set pre. \<exists>fields. parse_body b = Inr fields" by simp
  have fr: "frames (f # pre) @ rest = Frame h b # (frames pre @ rest)"
    using f by (simp add: frames_def)
  obtain evs x n1 where t: "try_block args spawn n h fields = (evs, x, n1)"
    by (cases "try_block args spawn n h fields") auto
  have evs: "filter is_protocol evs = []" using t by (rule try_block_protocol)
  show ?case
  proof (cases x)
    case (Some e)
    have "f # pre = [] @ (h, b) # pre
        \<and> filter is_protocol (fst (main_loop False args spawn n (frames (f # pre) @ rest))) =
               concat (map (\<lambda>(h, b). [Recv h b, Send_ok]) []) @ [Recv h b, Send_fail]
        \<and> snd (main_loop False args spawn n (frames (f # pre) @ rest)) = Sys_exit 1"
      unfolding fr using f p t Some evs by simp
    then show ?thesis by (intro disjI2 exI)
  next
    case None
    have step: "main_loop False args spawn n (frames (f # pre) @ rest) =
        emit (Recv h b # evs @ [Send_ok]) (main_loop False args spawn n1 (frames pre @ rest))"
      unfolding fr using p t None by simp
    have fq: "frame_qualifies args f = (qualifying args h fields = Inr True)"
      using f p by (auto simp: frame_qualifies_def split: sum.splits)
    have cnt: "n1 + length (filter (frame_qualifies args) pre) =
        n + length (filter (frame_qualifies args) (f # pre))"
      using try_block_cases [OF t] fq by auto
    from rest_ok have "(filter is_protocol (fst (main_loop False args spawn n1 (frames pre @ rest))) =
             concat (map (\<lambda>(h, b). [Recv h b, Send_ok]) pre)
               @ filter is_protocol (fst (main_loop False args spawn
                   (n1 + length (filter (frame_qualifies args) pre)) rest))
           \<and> snd (main_loop False args spawn n1 (frames pre @ rest)) =
               snd (main_loop False args spawn
                   (n1 + length (filter (frame_qualifies args) pre)) rest))
       \<or> (\<exists>done h b todo. pre = done @ (h, b) # todo
           \<and> filter is_protocol (fst (main_loop False args spawn n1 (frames pre @ rest))) =
               concat (map (\<lambda>(h, b). [Recv h b, Send_ok]) done) @ [Recv h b, Send_fail]
           \<and> snd (main_loop False args spawn n1 (frames pre @ rest)) = Sys_exit 1)"
      by (rule Cons.IH)
    then show ?thesis
    proof (elim disjE exE conjE)
      assume a: "filter is_protocol (fst (main_loop False args spawn n1 (frames pre @ rest))) =
             concat (map (\<lambda>(h, b). [Recv h b, Send_ok]) pre)
               @ filter is_protocol (fst (main_loop False args spawn
                   (n1 + length (filter (frame_qualifies args) pre)) rest))"
        and b: "snd (main_loop False args spawn n1 (frames pre @ rest)) =
               snd (main_loop False args spawn
                   (n1 + length (filter (frame_qualifies args) pre)) rest)"
      have "filter is_protocol (fst (main_loop False args spawn n (frames (f # pre) @ rest))) =
             concat (map (\<lambda>(h, b). [Recv h b, Send_ok]) (f # pre))
               @ filter is_protocol (fst (main_loop False args spawn
                   (n + length (filter (frame_qualifies args) (f # pre))) rest))
           \<and> snd (main_loop False args spawn n (frames (f # pre) @ rest)) =
               snd (main_loop False args spawn
                   (n + length (filter (frame_qualifies args) (f # pre))) rest)"
        unfolding step cnt [symmetric] using a b evs f by (simp add: fst_emit snd_emit)
      then show ?thesis by (rule disjI1)
    next
      fix "done" h' b' todo
      assume a: "pre = done @ (h', b') # todo"
        and b: "filter is_protocol (fst (main_loop False args spawn n1 (frames pre @ rest))) =
               concat (map (\<lambda>(h, b). [Recv h b, Send_ok]) done) @ [Recv h' b', Send_fail]"
        and c: "snd (main_loop False args spawn n1 (frames pre @ rest)) = Sys_exit 1"
      have "f # pre = (f # done) @ (h', b') # todo
        \<and> filter is_protocol (fst (main_loop False args spawn n (frames (f # pre) @ rest))) =
               concat (map (\<lambda>(h, b). [Recv h b, Send_ok]) (f # done)) @ [Recv h' b', Send_fail]
        \<and> snd (main_loop False args spawn n (frames (f # pre) @ rest)) = Sys_exit 1"
        unfolding step using a b c evs f by (simp add: fst_emit snd_emit)
      then show ?thesis by (intro disjI2 exI)
    qed
  qed
qed

lemma main_loop_frame_protocol:
  assumes "parse_body body = Inr fields"
    and "try_block args spawn n headers fields = (evs, x, n')"
  shows "filter is_protocol (fst (main_loop False args spawn n (Frame headers body # rest))) =
           (case x of
              None \<Rightarrow> Recv headers body # Send_ok
                        # filter is_protocol (fst (main_loop False args spawn n' rest))
            | Some e \<Rightarrow> [Recv headers body, Send_fail])"
proof -
  have evs: "filter is_protocol evs = []" using assms(2) by (rule try_block_protocol)
  show ?thesis using assms evs by (cases x) (simp_all add: fst_emit)
qed

text \<open>
  C3, amended: outside debug mode, every frame read whose body parses is followed by
  exactly one reply before the next frame is read, at every iteration of the loop and
  whatever follows in the stream: the reply is OK, and the loop goes on, when the
  \<open>try\<close> block raised nothing on that frame, and FAIL otherwise. In a whole run, over
  any prefix of the stream whose bodies parse, the frames read and the replies alternate
  in the order of the stream: either every frame of the prefix is answered OK and the run
  goes on with the rest, or the frames are answered OK up to one that is answered FAIL,
  where the process exits.
\<close>

theorem one_reply_per_parsed_frame:
  "(environ ''DEBUG'' = None
    \<longrightarrow> main args environ spawn stdin =
          emit [Log_info ''Listening for events...''] (main_loop False args spawn 0 stdin))
   \<and> (parse_body body = Inr fields \<and> try_block args spawn n headers fields = (evs, x, n')
    \<longrightarrow> filter is_protocol (fst (main_loop False args spawn n (Frame headers body # rest))) =
           (case x of
              None \<Rightarrow> Recv headers body # Send_ok
                        # filter is_protocol (fst (main_loop False args spawn n' rest))
            | Some e \<Rightarrow> [Recv headers body, Send_fail]))
   \<and> (environ ''DEBUG'' = None \<and> (\<forall>(h, b) \<in> set pre. \<exists>fields. parse_body b = Inr fields)
    \<longrightarrow> (filter is_protocol (fst (main args environ spawn (frames pre @ stdin))) =
               concat (map (\<lambda>(h, b). [Recv h b, Send_ok]) pre)
                 @ filter is_protocol (fst (main_loop False args spawn
                     (length (filter (frame_qualifies args) pre)) stdin))
             \<and> snd (main args environ spawn (frames pre @ stdin)) =
                 snd (main_loop False args spawn
                     (length (filter (frame_qualifies args) pre)) stdin))
         \<or> (\<exists>done h b todo. pre = done @ (h, b) # todo
             \<and> filter is_protocol (fst (main args environ spawn (frames pre @ stdin))) =
                 concat (map (\<lambda>(h, b). [Recv h b, Send_ok]) done) @ [Recv h b, Send_fail]
             \<and> snd (main args environ spawn (frames pre @ stdin)) = Sys_exit 1))"
proof -
  have u: "main args environ spawn stdin =
          emit [Log_info ''Listening for events...''] (main_loop False args spawn 0 stdin)"
    if "environ ''DEBUG'' = None"
    using that by (simp add: main_unfold)
  have a: "filter is_protocol (fst (main_loop False args spawn n (Frame headers body # rest))) =
           (case x of
              None \<Rightarrow> Recv headers body # Send_ok
                        # filter is_protocol (fst (main_loop False args spawn n' rest))
            | Some e \<Rightarrow> [Recv headers body, Send_fail])"
    if "parse_body body = Inr fields" "try_block args spawn n headers fields = (evs, x, n')"
    using that by (rule main_loop_frame_protocol)
  have b: "(filter is_protocol (fst (main args environ spawn (frames pre @ stdin))) =
               concat (map (\<lambda>(h, b). [Recv h b, Send_ok]) pre)
                 @ filter is_protocol (fst (main_loop False args spawn
                     (length (filter (frame_qualifies args) pre)) stdin))
             \<and> snd (main args environ spawn (frames pre @ stdin)) =
                 snd (main_loop False args spawn
                     (length (filter (frame_qualifies args) pre)) stdin))
         \<or> (\<exists>done h b todo. pre = done @ (h, b) # todo
             \<and> filter is_protocol (fst (main args environ spawn (frames pre @ stdin))) =
                 concat (map (\<lambda>(h, b). [Recv h b, Send_ok]) done) @ [Recv h b, Send_fail]
             \<and> snd (main args environ spawn (frames pre @ stdin)) = Sys_exit 1)"
    if d: "environ ''DEBUG'' = None"
      and p: "\<forall>(h, b) \<in> set pre. \<exists>fields. parse_body b = Inr fields"
  proof -
    have m: "filter is_protocol (fst (main args environ spawn (frames pre @ stdin))) =
        filter is_protocol (fst (main_loop False args spawn 0 (frames pre @ stdin)))"
      "snd (main args environ spawn (frames pre @ stdin)) =
        snd (main_loop False args spawn 0 (frames pre @ stdin))"
      using d by (simp_all add: main_unfold fst_emit snd_emit)
    show ?thesis
      unfolding m using main_loop_parsed_prefix [OF p, of args spawn 0 stdin] by simp
  qed
  show ?thesis
    apply (intro conjI impI)
    subgoal using u by simp
    subgoal using a by simp
    subgoal using b by simp
    done
qed

theorem one_reply_per_parsed_frame_witness:
  "parse_body ''processname:game'' = Inr [''processname'' \<mapsto> ''game'']
   \<and> try_block [] (\<lambda>k. Call_returns 0) 0 [''eventname'' \<mapsto> ''PROCESS_STATE_RUNNING'']
        [''processname'' \<mapsto> ''game''] = ([], None, 0)
   \<and> filter is_protocol (fst (main_loop False [] (\<lambda>k. Call_returns 0) 0
        (Frame [''eventname'' \<mapsto> ''PROCESS_STATE_RUNNING''] ''processname:game''
           # [Frame [''eventname'' \<mapsto> ''PROCESS_STATE_EXITED''] ''badtoken'']))) =
       Recv [''eventname'' \<mapsto> ''PROCESS_STATE_RUNNING''] ''processname:game'' # Send_ok
         # filter is_protocol (fst (main_loop False [] (\<lambda>k. Call_returns 0) 0
             [Frame [''eventname'' \<mapsto> ''PROCESS_STATE_EXITED''] ''badtoken'']))
   \<and> ((filter is_protocol (fst (main [] Map.empty (\<lambda>k. Call_returns 0)
               (frames [([''eventname'' \<mapsto> ''PROCESS_STATE_RUNNING''], ''processname:game'')]
                  @ [Frame [''eventname'' \<mapsto> ''PROCESS_STATE_EXITED''] ''badtoken'']))) =
               concat (map (\<lambda>(h, b). [Recv h b, Send_ok])
                  [([''eventname'' \<mapsto> ''PROCESS_STATE_RUNNING''], ''processname:game'')])
                 @ filter is_protocol (fst (main_loop False [] (\<lambda>k. Call_returns 0)
                     (length (filter (frame_qualifies [])
                        [([''eventname'' \<mapsto> ''PROCESS_STATE_RUNNING''], ''processname:game'')]))
                     [Frame [''eventname'' \<mapsto> ''PROCESS_STATE_EXITED''] ''badtoken'']))
             \<and> snd (main [] Map.empty (\<lambda>k. Call_returns 0)
               (frames [([''eventname'' \<mapsto> ''PROCESS_STATE_RUNNING''], ''processname:game'')]
                  @ [Frame [''eventname'' \<mapsto> ''PROCESS_STATE_EXITED''] ''badtoken''])) =
                 snd (main_loop False [] (\<lambda>k. Call_returns 0)
                     (length (filter (frame_qualifies [])
                        [([''eventname'' \<mapsto> ''PROCESS_STATE_RUNNING''], ''processname:game'')]))
                     [Frame [''eventname'' \<mapsto> ''PROCESS_STATE_EXITED''] ''badtoken'']))
         \<or> (\<exists>done h b todo.
               [([''eventname'' \<mapsto> ''PROCESS_STATE_RUNNING''], ''processname:game'')]
                  = done @ (h, b) # todo
             \<and> filter is_protocol (fst (main [] Map.empty (\<lambda>k. Call_returns 0)
               (frames [([''eventname'' \<mapsto> ''PROCESS_STATE_RUNNING''], ''processname:game'')]
                  @ [Frame [''eventname'' \<mapsto> ''PROCESS_STATE_EXITED''] ''badtoken'']))) =
                 concat (map (\<lambda>(h, b). [Recv h b, Send_ok]) done) @ [Recv h b, Send_fail]
             \<and> snd (main [] Map.empty (\<lambda>k. Call_returns 0)
               (frames [([''eventname'' \<mapsto> ''PROCESS_STATE_RUNNING''], ''processname:game'')]
                  @ [Frame [''eventname'' \<mapsto> ''PROCESS_STATE_EXITED''] ''badtoken''])) = Sys_exit 1))"
proof -
  let ?hR = "[''eventname'' \<mapsto> ''PROCESS_STATE_RUNNING'']"
  let ?bad = "[Frame [''eventname'' \<mapsto> ''PROCESS_STATE_EXITED''] ''badtoken'']"
  let ?sp = "\<lambda>k::nat. Call_returns 0"
  have p: "parse_body ''processname:game'' = Inr [''processname'' \<mapsto> ''game'']"
    by (simp add: parse_body_def py_dict_def)
  have t: "try_block [] ?sp 0 ?hR [''processname'' \<mapsto> ''game''] = ([], None, 0)"
    by (simp add: try_block_def qualifying_def getitem_def)
  note T = one_reply_per_parsed_frame [where body = "''processname:game''"
      and fields = "[''processname'' \<mapsto> ''game'']" and args = "[]" and spawn = ?sp and n = 0
      and headers = ?hR and evs = "[]" and x = None and n' = 0 and rest = ?bad
      and environ = Map.empty and pre = "[(?hR, ''processname:game'')]" and stdin = ?bad]
  have H1: "parse_body ''processname:game'' = Inr [''processname'' \<mapsto> ''game'']
      \<and> try_block [] ?sp 0 ?hR [''processname'' \<mapsto> ''game''] = ([], None, 0)"
    using p t by (rule conjI)
  have H2: "Map.empty ''DEBUG'' = (None :: string option)
      \<and> (\<forall>(h, b) \<in> set [(?hR, ''processname:game'')]. \<exists>fields. parse_body b = Inr fields)"
    using p by simp
  have C1: "filter is_protocol (fst (main_loop False [] ?sp 0 (Frame ?hR ''processname:game'' # ?bad))) =
           (case None :: exn option of
              None \<Rightarrow> Recv ?hR ''processname:game'' # Send_ok
                        # filter is_protocol (fst (main_loop False [] ?sp 0 ?bad))
            | Some e \<Rightarrow> [Recv ?hR ''processname:game'', Send_fail])"
    using T [THEN conjunct2, THEN conjunct1] H1 by (rule mp)
  have C1': "filter is_protocol (fst (main_loop False [] ?sp 0 (Frame ?hR ''processname:game'' # ?bad))) =
       Recv ?hR ''processname:game'' # Send_ok # filter is_protocol (fst (main_loop False [] ?sp 0 ?bad))"
    using C1 by simp
  note C2 = mp [OF T [THEN conjunct2, THEN conjunct2] H2]
  show ?thesis
    by (rule conjI [OF p conjI [OF t conjI [OF C1' C2]]])
qed

section \<open>Which bodies are parsed\<close>




section \<open>The debug switch\<close>

lemma main_loop_debug_trace:
  "e \<in> set (fst (main_loop True args spawn n inp)) \<Longrightarrow> \<not> is_reply e \<and> \<not> is_call e"
proof (induction inp arbitrary: n)
  case Nil
  then show ?case by simp
next
  case (Cons a inp)
  show ?case
  proof (cases a)
    case (Wait_raises x)
    with Cons.prems show ?thesis by simp
  next
    case (Frame h b)
    show ?thesis
    proof (cases "parse_body b")
      case (Inl x)
      with Cons.prems Frame show ?thesis by auto
    next
      case (Inr fields)
      with Cons.prems Frame have "e = Recv h b \<or> e \<in> set (fst (main_loop True args spawn n inp))"
        by (simp add: fst_emit)
      then show ?thesis using Cons.IH by auto
    qed
  qed
qed

text \<open>
  C9: debug mode is on exactly when DEBUG is present in the environment at startup,
  whatever its value: with DEBUG present the whole run is the debug loop, in which no
  frame is answered or acted upon, and with DEBUG absent it is the normal loop, in which
  a frame that parses and does not qualify is answered OK. The environment is read once,
  before the loop: two histories of the environment that agree on the presence of DEBUG
  at startup give the same run, whatever they hold later, and after any number of frames
  the rest of the stream is handled in the mode chosen at startup.
\<close>

theorem debug_mode_by_presence:
  "(os_environ 0 ''DEBUG'' = Some v \<longrightarrow>
      main_env args os_environ spawn stdin =
        emit [Log_info ''Listening for events...''] (main_loop True args spawn 0 stdin)
      \<and> (\<forall>e \<in> set (fst (main_env args os_environ spawn stdin)). \<not> is_reply e \<and> \<not> is_call e))
   \<and> (os_environ 0 ''DEBUG'' = None \<longrightarrow>
      main_env args os_environ spawn stdin =
        emit [Log_info ''Listening for events...''] (main_loop False args spawn 0 stdin))
   \<and> (os_environ 0 ''DEBUG'' = None \<and> parse_body body = Inr fields
        \<and> qualifying args headers fields = Inr False \<longrightarrow>
      filter is_reply (fst (main_env args os_environ spawn (Frame headers body # rest))) =
        Send_ok # filter is_reply (fst (main_loop False args spawn 0 rest)))
   \<and> ((os_environ' 0 ''DEBUG'' = None \<longleftrightarrow> os_environ 0 ''DEBUG'' = None) \<longrightarrow>
        main_env args os_environ' spawn stdin = main_env args os_environ spawn stdin)
   \<and> main args environ spawn stdin = main_env args (\<lambda>i. environ) spawn stdin
   \<and> debug_mode_of environ = (environ ''DEBUG'' \<noteq> None)
   \<and> (os_environ 0 ''DEBUG'' = Some v \<and> (\<forall>(h, b) \<in> set pre. \<exists>fields. parse_body b = Inr fields) \<longrightarrow>
        main_env args os_environ spawn (frames pre @ rest) =
          emit (Log_info ''Listening for events...'' # recvs pre) (main_loop True args spawn 0 rest))"
proof -
  have a: "main_env args os_environ spawn stdin =
        emit [Log_info ''Listening for events...''] (main_loop True args spawn 0 stdin)
      \<and> (\<forall>e \<in> set (fst (main_env args os_environ spawn stdin)). \<not> is_reply e \<and> \<not> is_call e)"
    if "os_environ 0 ''DEBUG'' = Some v"
    using that main_loop_debug_trace [of _ args spawn 0 stdin]
    by (auto simp: main_env_def debug_mode_of_def fst_emit)
  have b: "main_env args os_environ spawn stdin =
        emit [Log_info ''Listening for events...''] (main_loop False args spawn 0 stdin)"
    if "os_environ 0 ''DEBUG'' = None" for stdin
    using that by (simp add: main_env_def debug_mode_of_def)
  have c: "filter is_reply (fst (main_env args os_environ spawn (Frame headers body # rest))) =
        Send_ok # filter is_reply (fst (main_loop False args spawn 0 rest))"
    if "os_environ 0 ''DEBUG'' = None" "parse_body body = Inr fields"
      "qualifying args headers fields = Inr False"
  proof -
    have "try_block args spawn 0 headers fields = ([], None, 0)"
      using that(3) by (rule try_block_not_qualifying)
    then show ?thesis
      using that(1,2) by (simp add: b fst_emit)
  qed
  have d: "main_env args os_environ' spawn stdin = main_env args os_environ spawn stdin"
    if "os_environ' 0 ''DEBUG'' = None \<longleftrightarrow> os_environ 0 ''DEBUG'' = None"
    using that by (simp add: main_env_def debug_mode_of_def)
  have e: "main args environ spawn stdin = main_env args (\<lambda>i. environ) spawn stdin"
    by (simp add: main_def main_env_def debug_mode_of_def)
  have f: "debug_mode_of environ = (environ ''DEBUG'' \<noteq> None)"
    by (simp add: debug_mode_of_def)
  have g: "main_env args os_environ spawn (frames pre @ rest) =
          emit (Log_info ''Listening for events...'' # recvs pre) (main_loop True args spawn 0 rest)"
    if "os_environ 0 ''DEBUG'' = Some v" and "\<forall>(h, b) \<in> set pre. \<exists>fields. parse_body b = Inr fields"
  proof -
    have "main_loop True args spawn 0 (frames pre @ rest) =
        emit (recvs pre) (main_loop True args spawn 0 rest)"
      using that(2) by (rule main_loop_debug_prefix)
    then show ?thesis
      using that(1) by (cases "main_loop True args spawn 0 rest") (simp add: main_env_def debug_mode_of_def)
  qed
  show ?thesis
    apply (intro conjI impI)
    subgoal using a by simp
    subgoal using a by simp
    subgoal using b by simp
    subgoal using c by simp
    subgoal using d by simp
    subgoal by (rule e)
    subgoal by (rule f)
    subgoal using g by simp
    done
qed

theorem debug_mode_by_presence_witness:
  "filter is_reply (fst (main_env [] (\<lambda>i. if i = 0 then Map.empty else [''DEBUG'' \<mapsto> ''1''])
       (\<lambda>k. Call_returns 0)
       (Frame [''eventname'' \<mapsto> ''TICK_5''] ''when:1''
          # [Frame [''eventname'' \<mapsto> ''TICK_5''] ''when:2'']))) = [Send_ok, Send_ok]
   \<and> main_env [] (\<lambda>i. if i = 0 then [''DEBUG'' \<mapsto> ''0''] else Map.empty) (\<lambda>k. Call_returns 0)
       (frames [([''eventname'' \<mapsto> ''TICK_5''], ''when:1''),
                ([''eventname'' \<mapsto> ''PROCESS_STATE_EXITED''], ''processname:game'')] @ []) =
       ([Log_info ''Listening for events...'',
         Recv [''eventname'' \<mapsto> ''TICK_5''] ''when:1'',
         Recv [''eventname'' \<mapsto> ''PROCESS_STATE_EXITED''] ''processname:game''],
        Uncaught (KeyError ''len''))
   \<and> main_env [] (\<lambda>i. [''DEBUG'' \<mapsto> '''']) (\<lambda>k. Call_returns 0)
       [Frame [''eventname'' \<mapsto> ''PROCESS_STATE_EXITED''] ''processname:game''] =
     main_env [] (\<lambda>i. if i = 0 then [''DEBUG'' \<mapsto> ''0''] else Map.empty) (\<lambda>k. Call_returns 0)
       [Frame [''eventname'' \<mapsto> ''PROCESS_STATE_EXITED''] ''processname:game'']
   \<and> main [] [''DEBUG'' \<mapsto> ''0''] (\<lambda>k. Call_returns 0)
       [Frame [''eventname'' \<mapsto> ''PROCESS_STATE_EXITED''] ''processname:game''] =
     main_env [] (\<lambda>i. [''DEBUG'' \<mapsto> ''0'']) (\<lambda>k. Call_returns 0)
       [Frame [''eventname'' \<mapsto> ''PROCESS_STATE_EXITED''] ''processname:game'']
   \<and> debug_mode_of [''DEBUG'' \<mapsto> ''''] \<and> debug_mode_of [''DEBUG'' \<mapsto> ''0'']
   \<and> \<not> debug_mode_of Map.empty"
proof -
  let ?sp = "\<lambda>k::nat. Call_returns 0"
  let ?late = "\<lambda>i::nat. if i = 0 then (Map.empty :: dict) else [''DEBUG'' \<mapsto> ''1'']"
  let ?early = "\<lambda>i::nat. if i = 0 then [''DEBUG'' \<mapsto> ''0''] else (Map.empty :: dict)"
  let ?tick = "[''eventname'' \<mapsto> ''TICK_5'']"
  let ?ex = "[''eventname'' \<mapsto> ''PROCESS_STATE_EXITED'']"
  have p1: "parse_body ''when:1'' = Inr [''when'' \<mapsto> ''1'']"
    by (simp add: parse_body_def py_dict_def)
  have p2: "parse_body ''when:2'' = Inr [''when'' \<mapsto> ''2'']"
    by (simp add: parse_body_def py_dict_def)
  have p3: "parse_body ''processname:game'' = Inr [''processname'' \<mapsto> ''game'']"
    by (simp add: parse_body_def py_dict_def)
  have q1: "qualifying [] ?tick [''when'' \<mapsto> ''1''] = Inr False"
    by (simp add: qualifying_def getitem_def)
  have H3: "?late 0 ''DEBUG'' = None \<and> parse_body ''when:1'' = Inr [''when'' \<mapsto> ''1'']
      \<and> qualifying [] ?tick [''when'' \<mapsto> ''1''] = Inr False"
    using p1 q1 by simp
  note L = debug_mode_by_presence [where os_environ = ?late and args = "[]" and spawn = ?sp
      and body = "''when:1''" and fields = "[''when'' \<mapsto> ''1'']" and headers = ?tick
      and rest = "[Frame ?tick ''when:2'']"]
  have C3: "filter is_reply (fst (main_env [] ?late ?sp (Frame ?tick ''when:1'' # [Frame ?tick ''when:2'']))) =
        Send_ok # filter is_reply (fst (main_loop False [] ?sp 0 [Frame ?tick ''when:2'']))"
    using L [THEN conjunct2, THEN conjunct2, THEN conjunct1] H3 by (rule mp)
  have a: "filter is_reply (fst (main_env [] ?late ?sp (Frame ?tick ''when:1'' # [Frame ?tick ''when:2'']))) =
        [Send_ok, Send_ok]"
    using C3 by (simp add: p2 try_block_def qualifying_def getitem_def)
  note E = debug_mode_by_presence [where os_environ = ?early and v = "''0''" and args = "[]"
      and spawn = ?sp and pre = "[(?tick, ''when:1''), (?ex, ''processname:game'')]" and rest = "[]"
      and os_environ' = "\<lambda>i. [''DEBUG'' \<mapsto> '''']"
      and stdin = "[Frame ?ex ''processname:game'']"
      and environ = "[''DEBUG'' \<mapsto> ''0'']"]
  have H7: "?early 0 ''DEBUG'' = Some ''0''
      \<and> (\<forall>(h, b) \<in> set [(?tick, ''when:1''), (?ex, ''processname:game'')].
            \<exists>fields. parse_body b = Inr fields)"
    using p1 p3 by simp
  have C7: "main_env [] ?early ?sp (frames [(?tick, ''when:1''), (?ex, ''processname:game'')] @ []) =
          emit (Log_info ''Listening for events...''
                  # recvs [(?tick, ''when:1''), (?ex, ''processname:game'')])
            (main_loop True [] ?sp 0 [])"
    using E [THEN conjunct2, THEN conjunct2, THEN conjunct2, THEN conjunct2, THEN conjunct2,
        THEN conjunct2] H7 by (rule mp)
  have b: "main_env [] ?early ?sp (frames [(?tick, ''when:1''), (?ex, ''processname:game'')] @ []) =
       ([Log_info ''Listening for events...'', Recv ?tick ''when:1'', Recv ?ex ''processname:game''],
        Uncaught (KeyError ''len''))"
    using C7 by (simp add: recvs_def)
  have H4: "(\<lambda>i::nat. [''DEBUG'' \<mapsto> '''']) 0 ''DEBUG'' = None \<longleftrightarrow> ?early 0 ''DEBUG'' = None"
    by simp
  have c: "main_env [] (\<lambda>i. [''DEBUG'' \<mapsto> '''']) ?sp [Frame ?ex ''processname:game''] =
     main_env [] ?early ?sp [Frame ?ex ''processname:game'']"
    using E [THEN conjunct2, THEN conjunct2, THEN conjunct2, THEN conjunct1] H4 by (rule mp)
  have d: "main [] [''DEBUG'' \<mapsto> ''0''] ?sp [Frame ?ex ''processname:game''] =
     main_env [] (\<lambda>i. [''DEBUG'' \<mapsto> ''0'']) ?sp [Frame ?ex ''processname:game'']"
    by (rule E [THEN conjunct2, THEN conjunct2, THEN conjunct2, THEN conjunct2, THEN conjunct1])
  have e: "debug_mode_of [''DEBUG'' \<mapsto> ''''] \<and> debug_mode_of [''DEBUG'' \<mapsto> ''0'']
      \<and> \<not> debug_mode_of Map.empty"
    by (simp add: debug_mode_of_def)
  show ?thesis
    by (rule conjI [OF a conjI [OF b conjI [OF c conjI [OF d e]]]])
qed

end
